theory Spec2Isabelle
  imports Complex_Main
begin

section \<open>Python strings\<close>

text \<open>
  A Python \<open>str\<close> is modelled as a \<open>string\<close> whose characters are the code points
  below 256. \<open>isspace\<close> is the whitespace test that \<open>str.strip()\<close> and \<open>str.split()\<close>
  (both called without arguments) use: in that range the code points 9 to 13, 28 to 32,
  133 and 160.
\<close>

definition isspace :: "char \<Rightarrow> bool" where
  "isspace c =
     (let n = (of_char c :: nat)
      in (9 \<le> n \<and> n \<le> 13) \<or> (28 \<le> n \<and> n \<le> 32) \<or> n = 133 \<or> n = 160)"

text \<open>\<open>s.strip()\<close>: leading and trailing whitespace removed.\<close>

definition strip :: "string \<Rightarrow> string" where
  "strip s = rev (dropWhile isspace (rev (dropWhile isspace s)))"

text \<open>
  \<open>s.split()\<close>: the maximal runs of non-whitespace characters, in order.
  \<open>split_from tok cs\<close> scans \<open>cs\<close> with the token read so far in \<open>tok\<close>.
\<close>

fun split_from :: "string \<Rightarrow> string \<Rightarrow> string list" where
  "split_from tok [] = (if tok = [] then [] else [tok])"
| "split_from tok (c # cs) =
     (if isspace c then (if tok = [] then split_from [] cs else tok # split_from [] cs)
      else split_from (tok @ [c]) cs)"

definition split :: "string \<Rightarrow> string list" where
  "split s = split_from [] s"

text \<open>
  \<open>s.lower()\<close>: below code point 256 the upper-case letters are 65 to 90 and 192 to
  222 without 215; each is 32 below its lower-case letter, which is the same character
  with bit 5 set.
\<close>

definition lower_char :: "char \<Rightarrow> char" where
  "lower_char c =
     (let n = (of_char c :: nat)
      in if (65 \<le> n \<and> n \<le> 90) \<or> (192 \<le> n \<and> n \<le> 222 \<and> n \<noteq> 215)
         then (case c of Char b0 b1 b2 b3 b4 b5 b6 b7 \<Rightarrow> Char b0 b1 b2 b3 b4 True b6 b7)
         else c)"

definition lower :: "string \<Rightarrow> string" where
  "lower s = map lower_char s"

text \<open>\<open>sub in s\<close> on strings: \<open>sub\<close> occurs in \<open>s\<close> as a contiguous substring.\<close>

fun contains :: "string \<Rightarrow> string \<Rightarrow> bool" where
  "contains sub [] = (sub = [])"
| "contains sub (c # cs) = (take (length sub) (c # cs) = sub \<or> contains sub cs)"

text \<open>\<open>str(n)\<close> for a non-negative integer: its decimal digits.\<close>

function str_nat :: "nat \<Rightarrow> string" where
  "str_nat n =
     (if n < 10 then [''0123456789'' ! n]
      else str_nat (n div 10) @ [''0123456789'' ! (n mod 10)])"
  by pat_completeness auto
termination
  by (relation "measure id") auto

text \<open>A string between two apostrophes, as the programs' messages quote a name.\<close>

definition quoted :: "string \<Rightarrow> string" where
  "quoted s = CHR 0x27 # s @ [CHR 0x27]"

text \<open>
  \<open>s.replace(old, new)\<close> for a non-empty \<open>old\<close>: every occurrence of \<open>old\<close>, found
  from left to right without overlap, is replaced by \<open>new\<close>. (For an empty \<open>old\<close>
  Python inserts \<open>new\<close> around every character; the program never does that, and the
  model leaves the string unchanged.)
\<close>

function replace :: "string \<Rightarrow> string \<Rightarrow> string \<Rightarrow> string" where
  "replace old new [] = []"
| "replace old new (c # cs) =
     (if old \<noteq> [] \<and> take (length old) (c # cs) = old
      then new @ replace old new (drop (length old) (c # cs))
      else c # replace old new cs)"
  by pat_completeness auto
termination
  by (relation "measure (\<lambda>(old, new, s). length s)") auto

section \<open>Values, exceptions and the outside world\<close>

text \<open>
  The Python values that reach the functions below: \<open>None\<close>, a \<open>str\<close>, and a list
  of floats (an embedding vector). A float is modelled as a real number; the program
  computes with none of them, it only builds lists of \<open>0.0\<close> and passes on the lists the
  provider returns.
\<close>

datatype py_value = PyNone | PyStr string | PyFloats "real list"

text \<open>
  A document is a Python dictionary with string keys. A chat message and a search result
  are dictionaries too; the program reads only string-valued entries of them (role and
  content; id, title, content, category, sourceUrl, sourceName), so they are modelled
  with string values.
\<close>

type_synonym doc = "string \<rightharpoonup> py_value"

type_synonym message = "string \<rightharpoonup> string"

type_synonym result = "string \<rightharpoonup> string"

text \<open>\<open>d.get(k, default)\<close>\<close>

definition get_or :: "('k \<rightharpoonup> 'v) \<Rightarrow> 'k \<Rightarrow> 'v \<Rightarrow> 'v" where
  "get_or d k dflt = (case d k of None \<Rightarrow> dflt | Some v \<Rightarrow> v)"

text \<open>
  Instances of Python's \<open>Exception\<close>: those the program's own expressions raise
  (\<open>data[0]\<close> on an empty list, an attribute missing on a value, \<open>int(v)\<close> on a
  value that is no integer), and whatever an external call raises, with its message.
  \<open>str_exc\<close> is \<open>str(e)\<close>.
\<close>

datatype py_exception =
    IndexError
  | AttributeError string
  | ValueError string
  | ExternalError string

fun str_exc :: "py_exception \<Rightarrow> string" where
  "str_exc IndexError = ''list index out of range''"
| "str_exc (AttributeError m) = m"
| "str_exc (ValueError m) = m"
| "str_exc (ExternalError m) = m"

text \<open>
  The requests sent to the search index: the keyword arguments of
  \<open>SearchClient.search\<close>, with the vector queries as the SDK's \<open>VectorizedQuery\<close>
  objects hold them: the vector, the fields, and the number of nearest neighbours
  (\<open>k_nearest_neighbors\<close>), which is \<open>None\<close> when the object was given none.
\<close>

record vectorized_query =
  vq_vector :: "real list"
  vq_fields :: "string list"
  k_nearest_neighbors :: "int option"

datatype query_type = SIMPLE | SEMANTIC

record search_request =
  search_text :: "string option"
  vector_queries :: "vectorized_query list"
  select :: "string list"
  top_n :: int
  query_type :: "query_type option"
  semantic_configuration_name :: "string option"

text \<open>An action of an upload batch, and the per-document result the index returns for it.\<close>

record index_action =
  action :: string
  document :: doc

record indexing_result =
  key :: string
  succeeded :: bool
  error_message :: "string option"

text \<open>
  Everything the program does to the outside world is an event, appended to a log in
  the order it happens: a call of the embedding provider (input text and model), a line
  printed, a sleep (in seconds), a search sent to the index, a batch submitted to the
  index, a JSON file opened and read, and a JSON file opened and written.
\<close>

datatype event =
    EmbeddingsCreate string string
  | Print string
  | Sleep real
  | Search search_request
  | IndexDocuments "index_action list"
  | JsonLoad string
  | JsonDump string "doc list"

text \<open>
  The environment: the configured embedding deployment and index name, and the external
  services as functions of the log so far (so that a service may answer one call and
  fail the next) and of the request. Each returns either the exception it raises or its
  answer: \<open>embeddings_create\<close> the embeddings of \<open>response.data\<close>, in order;
  \<open>search_index\<close> the result dictionaries; \<open>index_documents\<close> the list
  \<open>result.results\<close>; \<open>json_load\<close> the parsed array of the file; \<open>json_dump\<close>
  nothing. \<open>new_vectorized_query\<close> is the constructor of the SDK's
  \<open>VectorizedQuery\<close>, which is not part of the repository, called as the programs call
  it, \<open>VectorizedQuery(vector=v, fields=fs, k=n)\<close>: it returns the object built or
  the exception raised. The SDK names the number of neighbours \<open>k_nearest_neighbors\<close>;
  what it does with a keyword \<open>k\<close> (drop it, or raise) is the SDK's.
\<close>

record env =
  embedding_deployment :: string
  search_index_name :: string
  embeddings_create :: "event list \<Rightarrow> string \<Rightarrow> string \<Rightarrow> py_exception + real list list"
  search_index :: "event list \<Rightarrow> search_request \<Rightarrow> py_exception + result list"
  index_documents :: "event list \<Rightarrow> index_action list \<Rightarrow> py_exception + indexing_result list"
  json_load :: "event list \<Rightarrow> string \<Rightarrow> py_exception + doc list"
  json_dump :: "event list \<Rightarrow> string \<Rightarrow> doc list \<Rightarrow> py_exception option"
  new_vectorized_query :: "real list \<Rightarrow> string list \<Rightarrow> int \<Rightarrow> py_exception + vectorized_query"

section \<open>Embedding generation\<close>

text \<open>\<open>[0.0] * 1536\<close>\<close>

definition zero_vector :: "real list" where
  "zero_vector = replicate 1536 0"

text \<open>
  The body of the \<open>try\<close> block of \<open>get_embeddings\<close> and of
  \<open>VectorSearchClient.generate_embeddings\<close>: the provider is called with the text and
  the model, and \<open>response.data[0].embedding\<close> is returned; the call may raise, and
  \<open>data[0]\<close> raises IndexError on an empty list.
\<close>

definition embeddings_try ::
  "env \<Rightarrow> string \<Rightarrow> string \<Rightarrow> event list \<Rightarrow> (py_exception + real list) \<times> event list" where
  "embeddings_try e text model tr =
     (let tr1 = tr @ [EmbeddingsCreate text model]
      in case embeddings_create e tr text model of
           Inl ex \<Rightarrow> (Inl ex, tr1)
         | Inr data \<Rightarrow> (case data of [] \<Rightarrow> (Inl IndexError, tr1) | d # _ \<Rightarrow> (Inr d, tr1)))"

text \<open>\<open>if len(text) > 8000: text = text[:8000]\<close>\<close>

definition truncate_text :: "string \<Rightarrow> string" where
  "truncate_text text = (if length text > 8000 then take 8000 text else text)"

text \<open>
  \<open>get_embeddings(text, model=azure_openai_embedding_deployment)\<close> of
  generate_embeddings.py; \<open>model = None\<close> is the call that omits the argument.
  \<open>not text\<close> holds for \<open>None\<close>, the empty string and the empty list; on a non-empty
  list \<open>text.strip()\<close> raises AttributeError, outside the \<open>try\<close>.
\<close>

definition get_embeddings ::
  "env \<Rightarrow> py_value \<Rightarrow> string option \<Rightarrow> event list \<Rightarrow> (py_exception + real list) \<times> event list" where
  "get_embeddings e text model tr =
     (let model = (case model of None \<Rightarrow> embedding_deployment e | Some m \<Rightarrow> m)
      in case text of
           PyNone \<Rightarrow> (Inr zero_vector, tr)
         | PyFloats v \<Rightarrow>
             (if v = [] then (Inr zero_vector, tr)
              else (Inl (AttributeError (quoted ''list'' @ '' object has no attribute '' @ quoted ''strip'')), tr))
         | PyStr s \<Rightarrow>
             (if s = [] \<or> strip s = [] then (Inr zero_vector, tr)
              else
                let s = truncate_text s
                in case embeddings_try e s model tr of
                     (Inr embedding, tr1) \<Rightarrow> (Inr embedding, tr1)
                   | (Inl ex, tr1) \<Rightarrow>
                       (Inr zero_vector,
                        tr1 @ [Print (''Error generating embeddings: '' @ str_exc ex)])))"

text \<open>
  \<open>VectorSearchClient.generate_embeddings(self, text)\<close> of vector_search_client.py: the
  same body, with the configured deployment as the model.
\<close>

definition generate_embeddings ::
  "env \<Rightarrow> py_value \<Rightarrow> event list \<Rightarrow> (py_exception + real list) \<times> event list" where
  "generate_embeddings e text tr =
     (case text of
        PyNone \<Rightarrow> (Inr zero_vector, tr)
      | PyFloats v \<Rightarrow>
          (if v = [] then (Inr zero_vector, tr)
           else (Inl (AttributeError (quoted ''list'' @ '' object has no attribute '' @ quoted ''strip'')), tr))
      | PyStr s \<Rightarrow>
          (if s = [] \<or> strip s = [] then (Inr zero_vector, tr)
           else
             let s = truncate_text s
             in case embeddings_try e s (embedding_deployment e) tr of
                  (Inr embedding, tr1) \<Rightarrow> (Inr embedding, tr1)
                | (Inl ex, tr1) \<Rightarrow>
                    (Inr zero_vector,
                     tr1 @ [Print (''Error generating embeddings: '' @ str_exc ex)])))"

section \<open>Offline embedding of a document file\<close>

text \<open>
  The loop of \<open>process_documents\<close> over \<open>enumerate(documents)\<close>, from index \<open>i\<close>
  on: after every tenth document a progress line and a sleep of half a second; the two
  embeddings; the two assignments \<open>doc["titleVector"] = ...\<close> and
  \<open>doc["contentVector"] = ...\<close>. An exception of \<open>get_embeddings\<close> leaves the loop.
\<close>

fun process_loop ::
  "env \<Rightarrow> nat \<Rightarrow> doc list \<Rightarrow> event list \<Rightarrow> (py_exception + doc list) \<times> event list" where
  "process_loop e i [] tr = (Inr [], tr)"
| "process_loop e i (d # ds) tr =
     (let tr1 = (if i > 0 \<and> i mod 10 = 0
                 then tr @ [Print (''Processed '' @ str_nat i @ '' documents...''), Sleep (1 / 2)]
                 else tr)
      in case get_embeddings e (get_or d ''title'' (PyStr [])) None tr1 of
           (Inl ex, tr2) \<Rightarrow> (Inl ex, tr2)
         | (Inr title_embedding, tr2) \<Rightarrow>
             (case get_embeddings e (get_or d ''content'' (PyStr [])) None tr2 of
                (Inl ex, tr3) \<Rightarrow> (Inl ex, tr3)
              | (Inr content_embedding, tr3) \<Rightarrow>
                  (case process_loop e (Suc i) ds tr3 of
                     (Inl ex, tr4) \<Rightarrow> (Inl ex, tr4)
                   | (Inr ds', tr4) \<Rightarrow>
                       (Inr (d(''titleVector'' \<mapsto> PyFloats title_embedding,
                               ''contentVector'' \<mapsto> PyFloats content_embedding) # ds'),
                        tr4))))"

text \<open>
  \<open>process_documents(documents_file)\<close>: the file is loaded, the loop runs, and the
  documents are written to \<open>documents_file.replace('.json', '_with_embeddings.json')\<close>.
\<close>

definition process_documents ::
  "env \<Rightarrow> string \<Rightarrow> event list \<Rightarrow> (py_exception + doc list) \<times> event list" where
  "process_documents e documents_file tr =
     (let tr1 = tr @ [JsonLoad documents_file]
      in case json_load e tr documents_file of
           Inl ex \<Rightarrow> (Inl ex, tr1)
         | Inr documents \<Rightarrow>
             (let tr2 = tr1 @ [Print (''Processing '' @ str_nat (length documents) @ '' documents...'')]
              in case process_loop e 0 documents tr2 of
                   (Inl ex, tr3) \<Rightarrow> (Inl ex, tr3)
                 | (Inr documents', tr3) \<Rightarrow>
                     (let tr4 = tr3 @ [Print (''Completed processing '' @ str_nat (length documents')
                                              @ '' documents with embeddings.'')];
                          output_file = replace ''.json'' ''_with_embeddings.json'' documents_file;
                          tr5 = tr4 @ [JsonDump output_file documents']
                      in case json_dump e tr4 output_file documents' of
                           Some ex \<Rightarrow> (Inl ex, tr5)
                         | None \<Rightarrow>
                             (Inr documents',
                              tr5 @ [Print (''Documents with embeddings saved to '' @ output_file)]))))"

section \<open>Uploading documents in batches\<close>

text \<open>\<open>str(v)\<close> of an error message that may be \<open>None\<close>.\<close>

definition str_opt :: "string option \<Rightarrow> string" where
  "str_opt m = (case m of None \<Rightarrow> ''None'' | Some t \<Rightarrow> t)"

text \<open>The loop that logs the documents of a batch the index did not take.\<close>

fun log_errors :: "indexing_result list \<Rightarrow> string list" where
  "log_errors [] = []"
| "log_errors (r # rs) =
     (if \<not> succeeded r
      then (''Error indexing document ID: '' @ key r @ '', Error: '' @ str_opt (error_message r))
           # log_errors rs
      else log_errors rs)"

text \<open>
  One iteration of the loop of \<open>upload_documents\<close>, at offset \<open>i\<close>: the batch
  \<open>documents[i:min(i + 100, len(documents))]\<close> is submitted as upload actions inside a
  \<open>try\<close>; an empty answer, the count of successes with the failed documents, or the
  exception is printed. The result is the list of lines printed.
\<close>

definition batch_of :: "doc list \<Rightarrow> nat \<Rightarrow> doc list" where
  "batch_of documents i =
     (let batch_end = min (i + 100) (length documents)
      in take (batch_end - i) (drop i documents))"

definition upload_action :: "doc \<Rightarrow> index_action" where
  "upload_action d = \<lparr>action = ''upload'', document = d\<rparr>"

definition batch_report :: "env \<Rightarrow> doc list \<Rightarrow> nat \<Rightarrow> event list \<Rightarrow> string list" where
  "batch_report e documents i tr =
     (let batch = batch_of documents i;
          number = str_nat (i div 100 + 1)
      in case index_documents e tr (map upload_action batch) of
           Inl ex \<Rightarrow> [''Error uploading batch '' @ number @ '': '' @ str_exc ex]
         | Inr results \<Rightarrow>
             if results = [] then [''No results returned for batch '' @ number]
             else (''Batch '' @ number @ '': '' @ str_nat (length (filter succeeded results))
                   @ ''/'' @ str_nat (length batch) @ '' documents indexed successfully'')
                  # log_errors results)"

definition upload_batch :: "env \<Rightarrow> doc list \<Rightarrow> nat \<Rightarrow> event list \<Rightarrow> event list" where
  "upload_batch e documents i tr =
     tr @ [IndexDocuments (map upload_action (batch_of documents i))]
        @ map Print (batch_report e documents i tr)"

text \<open>\<open>for i in range(0, len(documents), 100)\<close>\<close>

function upload_loop :: "env \<Rightarrow> doc list \<Rightarrow> nat \<Rightarrow> event list \<Rightarrow> event list" where
  "upload_loop e documents i tr =
     (if i < length documents
      then upload_loop e documents (i + 100) (upload_batch e documents i tr)
      else tr)"
  by pat_completeness auto
termination
  by (relation "measure (\<lambda>(e, documents, i, tr). length documents - i)") auto

declare upload_loop.simps [simp del]

definition upload_documents ::
  "env \<Rightarrow> string \<Rightarrow> event list \<Rightarrow> (py_exception + unit) \<times> event list" where
  "upload_documents e documents_file tr =
     (let tr1 = tr @ [JsonLoad documents_file]
      in case json_load e tr documents_file of
           Inl ex \<Rightarrow> (Inl ex, tr1)
         | Inr documents \<Rightarrow>
             (let tr2 = tr1 @ [Print (''Uploading '' @ str_nat (length documents)
                                      @ '' documents to index '' @ quoted (search_index_name e) @ ''...'')];
                  tr3 = upload_loop e documents 0 tr2
              in (Inr (),
                  tr3 @ [Print (''Document upload completed for index '' @ quoted (search_index_name e))])))"

section \<open>Query reformulation\<close>

text \<open>
  The condition of \<open>extract_search_query\<close> under which the previous user message is
  looked up.
\<close>

definition needs_context :: "string \<Rightarrow> bool" where
  "needs_context user_query \<longleftrightarrow>
     length (split user_query) < 5
     \<or> contains ''more'' (lower user_query)
     \<or> contains ''elaborat'' (lower user_query)"

text \<open>
  The loop over \<open>reversed(chat_history)\<close>: at the first message whose role is
  \<open>user\<close> it takes \<open>message.get("content")\<close> and stops. The argument is the reversed
  history; the result is the final value of \<open>last_user_message\<close>.
\<close>

fun find_last_user :: "message list \<Rightarrow> string option" where
  "find_last_user [] = None"
| "find_last_user (m # ms) =
     (if m ''role'' = Some ''user'' then m ''content'' else find_last_user ms)"

definition extract_search_query :: "string \<Rightarrow> message list \<Rightarrow> string" where
  "extract_search_query user_query chat_history =
     (if chat_history = [] then user_query
      else if needs_context user_query
      then (case find_last_user (rev chat_history) of
              None \<Rightarrow> user_query
            | Some last_user_message \<Rightarrow>
                if last_user_message \<noteq> [] then last_user_message @ '' '' @ user_query
                else user_query)
      else user_query)"

section \<open>The search client\<close>

definition selected_fields :: "string list" where
  "selected_fields = [''id'', ''title'', ''content'', ''category'', ''sourceUrl'', ''sourceName'']"

text \<open>\<open>self.search_client.search(...)\<close> with its results read into a list.\<close>

definition run_search ::
  "env \<Rightarrow> search_request \<Rightarrow> event list \<Rightarrow> (py_exception + result list) \<times> event list" where
  "run_search e req tr = (search_index e tr req, tr @ [Search req])"

text \<open>
  \<open>vector_search\<close>, \<open>hybrid_search\<close> and \<open>semantic_search\<close> of
  \<open>VectorSearchClient\<close>. An optional argument is \<open>None\<close> when the call omits it and
  the default of the signature applies: \<open>top=5\<close>, \<open>vector_field="contentVector"\<close>,
  \<open>semantic_config="semantic-config"\<close>. Each builds its vector query with
  \<open>VectorizedQuery(vector=query_vector, fields=[vector_field], k=...)\<close>; an exception
  of that constructor leaves the function before any search is sent.
\<close>

definition vector_search ::
  "env \<Rightarrow> string \<Rightarrow> int option \<Rightarrow> string option \<Rightarrow> event list
   \<Rightarrow> (py_exception + result list) \<times> event list" where
  "vector_search e query top_arg vector_field_arg tr =
     (let topk = (case top_arg of None \<Rightarrow> 5 | Some t \<Rightarrow> t);
          vector_field = (case vector_field_arg of None \<Rightarrow> ''contentVector'' | Some f \<Rightarrow> f)
      in case generate_embeddings e (PyStr query) tr of
           (Inl ex, tr1) \<Rightarrow> (Inl ex, tr1)
         | (Inr query_vector, tr1) \<Rightarrow>
             (case new_vectorized_query e query_vector [vector_field] topk of
                Inl ex \<Rightarrow> (Inl ex, tr1)
              | Inr vector_query \<Rightarrow>
                  run_search e
                    \<lparr>search_text = None,
                     vector_queries = [vector_query],
                     select = selected_fields,
                     top_n = topk,
                     query_type = None,
                     semantic_configuration_name = None\<rparr> tr1))"

definition hybrid_search ::
  "env \<Rightarrow> string \<Rightarrow> int option \<Rightarrow> string option \<Rightarrow> event list
   \<Rightarrow> (py_exception + result list) \<times> event list" where
  "hybrid_search e query top_arg vector_field_arg tr =
     (let topk = (case top_arg of None \<Rightarrow> 5 | Some t \<Rightarrow> t);
          vector_field = (case vector_field_arg of None \<Rightarrow> ''contentVector'' | Some f \<Rightarrow> f)
      in case generate_embeddings e (PyStr query) tr of
           (Inl ex, tr1) \<Rightarrow> (Inl ex, tr1)
         | (Inr query_vector, tr1) \<Rightarrow>
             (case new_vectorized_query e query_vector [vector_field] topk of
                Inl ex \<Rightarrow> (Inl ex, tr1)
              | Inr vector_query \<Rightarrow>
                  run_search e
                    \<lparr>search_text = Some query,
                     vector_queries = [vector_query],
                     select = selected_fields,
                     top_n = topk,
                     query_type = Some SIMPLE,
                     semantic_configuration_name = None\<rparr> tr1))"

definition semantic_search ::
  "env \<Rightarrow> string \<Rightarrow> int option \<Rightarrow> string option \<Rightarrow> string option \<Rightarrow> event list
   \<Rightarrow> (py_exception + result list) \<times> event list" where
  "semantic_search e query top_arg vector_field_arg semantic_config_arg tr =
     (let topk = (case top_arg of None \<Rightarrow> 5 | Some t \<Rightarrow> t);
          vector_field = (case vector_field_arg of None \<Rightarrow> ''contentVector'' | Some f \<Rightarrow> f);
          semantic_config =
            (case semantic_config_arg of None \<Rightarrow> ''semantic-config'' | Some c \<Rightarrow> c)
      in case generate_embeddings e (PyStr query) tr of
           (Inl ex, tr1) \<Rightarrow> (Inl ex, tr1)
         | (Inr query_vector, tr1) \<Rightarrow>
             (case new_vectorized_query e query_vector [vector_field] (topk * 3) of
                Inl ex \<Rightarrow> (Inl ex, tr1)
              | Inr vector_query \<Rightarrow>
                  run_search e
                    \<lparr>search_text = Some query,
                     vector_queries = [vector_query],
                     select = selected_fields,
                     top_n = topk,
                     query_type = Some SEMANTIC,
                     semantic_configuration_name = Some semantic_config\<rparr> tr1))"

section \<open>The search endpoint of the web application\<close>

text \<open>
  The JSON body of a request to \<open>/api/search\<close>: each entry is \<open>None\<close> when the key is
  absent. \<open>data_top\<close> holds the outcome of \<open>int(v)\<close> on the value \<open>v\<close> of the key
  \<open>top\<close>: the integer, or the exception \<open>int\<close> raises.
\<close>

record request_data =
  data_query :: "string option"
  data_search_type :: "string option"
  data_top :: "(py_exception + int) option"

text \<open>The JSON bodies the endpoint answers with; a response is a body and a status code.\<close>

datatype response_body =
    ErrorBody string
  | ResultsBody "result list" nat string string

type_synonym response = "response_body \<times> nat"

text \<open>The body of the loop that prepares a result for display.\<close>

definition process_result :: "result \<Rightarrow> result" where
  "process_result r =
     (let content = get_or r ''content'' [];
          content = (if length content > 500 then take 500 content @ ''...'' else content)
      in [''id'' \<mapsto> get_or r ''id'' [],
          ''title'' \<mapsto> get_or r ''title'' [],
          ''content'' \<mapsto> content,
          ''category'' \<mapsto> get_or r ''category'' [],
          ''sourceUrl'' \<mapsto> get_or r ''sourceUrl'' [],
          ''sourceName'' \<mapsto> get_or r ''sourceName'' []])"

text \<open>The body of the \<open>try\<close> block of \<open>search\<close>.\<close>

definition search_try ::
  "env \<Rightarrow> request_data \<Rightarrow> event list \<Rightarrow> (py_exception + response) \<times> event list" where
  "search_try e data tr =
     (let query = (case data_query data of None \<Rightarrow> [] | Some q \<Rightarrow> q);
          search_type = (case data_search_type data of None \<Rightarrow> ''vector'' | Some t \<Rightarrow> t)
      in case (case data_top data of None \<Rightarrow> Inr 5 | Some t \<Rightarrow> t) of
           Inl ex \<Rightarrow> (Inl ex, tr)
         | Inr topk \<Rightarrow>
             if query = [] then (Inr (ErrorBody ''Query is required'', 400), tr)
             else
               (case (if search_type = ''vector''
                        then Some (vector_search e query (Some topk) None tr)
                      else if search_type = ''hybrid''
                        then Some (hybrid_search e query (Some topk) None tr)
                      else if search_type = ''semantic''
                        then Some (semantic_search e query (Some topk) None None tr)
                      else None) of
                  None \<Rightarrow> (Inr (ErrorBody ''Invalid search type'', 400), tr)
                | Some (Inl ex, tr1) \<Rightarrow> (Inl ex, tr1)
                | Some (Inr results, tr1) \<Rightarrow>
                    (Inr (ResultsBody (map process_result results) (length results)
                            query search_type, 200),
                     tr1)))"

text \<open>\<open>search()\<close>: an exception of the body is answered with status 500.\<close>

definition search :: "env \<Rightarrow> request_data \<Rightarrow> event list \<Rightarrow> response \<times> event list" where
  "search e data tr =
     (case search_try e data tr of
        (Inr resp, tr1) \<Rightarrow> (resp, tr1)
      | (Inl ex, tr1) \<Rightarrow> ((ErrorBody (str_exc ex), 500), tr1))"

section \<open>Observations on a log, and example environments\<close>

text \<open>The provider calls of a log, in order: the text and the model of each.\<close>

fun provider_calls :: "event list \<Rightarrow> (string \<times> string) list" where
  "provider_calls [] = []"
| "provider_calls (EmbeddingsCreate text model # evs) = (text, model) # provider_calls evs"
| "provider_calls (ev # evs) = provider_calls evs"

text \<open>The searches of a log, in order.\<close>

fun searches :: "event list \<Rightarrow> search_request list" where
  "searches [] = []"
| "searches (Search req # evs) = req # searches evs"
| "searches (ev # evs) = searches evs"

text \<open>The batches submitted in a log, in order: the documents of each.\<close>

fun attempted :: "event list \<Rightarrow> doc list list" where
  "attempted [] = []"
| "attempted (IndexDocuments acts # evs) = map document acts # attempted evs"
| "attempted (ev # evs) = attempted evs"

text \<open>
  For each batch submitted in a log, the number of lines printed after it and before
  the next event that is not a printed line.
\<close>

fun is_print :: "event \<Rightarrow> bool" where
  "is_print (Print line) = True"
| "is_print ev = False"

fun report_counts :: "event list \<Rightarrow> nat list" where
  "report_counts [] = []"
| "report_counts (IndexDocuments acts # evs) =
     length (takeWhile is_print evs) # report_counts evs"
| "report_counts (ev # evs) = report_counts evs"

text \<open>
  The events of a run of \<open>upload_documents\<close> between its two opening events (the
  file read and the line that announces the upload) and its closing line: what the loop
  over the batches did.
\<close>

definition upload_events :: "env \<Rightarrow> string \<Rightarrow> event list \<Rightarrow> event list" where
  "upload_events e documents_file tr =
     drop (length tr + 2) (butlast (snd (upload_documents e documents_file tr)))"

text \<open>
  An environment whose embedding deployment returns vectors of three elements, whose
  index finds nothing and takes every document, whose files are empty arrays, and whose
  SDK builds a vector query from the vector and the fields and drops the keyword \<open>k\<close>
  it does not know.
\<close>

definition small_env :: env where
  "small_env =
     \<lparr>embedding_deployment = ''embedding-small'',
      search_index_name = ''documents'',
      embeddings_create = (\<lambda>tr text model. Inr [[1, 2, 3]]),
      search_index = (\<lambda>tr req. Inr []),
      index_documents =
        (\<lambda>tr acts. Inr (map (\<lambda>a. \<lparr>key = [], succeeded = True, error_message = None\<rparr>) acts)),
      json_load = (\<lambda>tr file. Inr []),
      json_dump = (\<lambda>tr file ds. None),
      new_vectorized_query =
        (\<lambda>v fs n. Inr \<lparr>vq_vector = v, vq_fields = fs, k_nearest_neighbors = None\<rparr>)\<rparr>"

text \<open>The same environment with an SDK that refuses the keyword \<open>k\<close>.\<close>

definition strict_sdk_env :: env where
  "strict_sdk_env =
     small_env\<lparr>new_vectorized_query :=
       (\<lambda>v fs n. Inl (ExternalError ''__init__() got an unexpected keyword argument k''))\<rparr>"

text \<open>The same environment with a provider that returns vectors of 1536 elements.\<close>

definition wide_env :: env where
  "wide_env = small_env\<lparr>embeddings_create := (\<lambda>tr text model. Inr [replicate 1536 1])\<rparr>"

text \<open>The same environment with a provider that times out on every call.\<close>

definition timeout_env :: env where
  "timeout_env =
     small_env\<lparr>embeddings_create := (\<lambda>tr text model. Inl (ExternalError ''Request timed out.''))\<rparr>"

text \<open>A document, and an environment whose files hold an array of that one document.\<close>

definition sample_doc :: doc where
  "sample_doc = [''id'' \<mapsto> PyStr ''1'', ''title'' \<mapsto> PyStr ''Cloud'']"

definition sample_env :: env where
  "sample_env = small_env\<lparr>json_load := (\<lambda>tr file. Inr [sample_doc])\<rparr>"

text \<open>
  An environment whose files hold 250 copies of that document and whose index raises
  on the second batch submitted.
\<close>

definition second_batch_fails_env :: env where
  "second_batch_fails_env =
     small_env\<lparr>json_load := (\<lambda>tr file. Inr (replicate 250 sample_doc)),
               index_documents :=
       (\<lambda>tr acts. if length (attempted tr) = 1 then Inl (ExternalError ''connection reset'')
                   else Inr (map (\<lambda>a. \<lparr>key = [], succeeded = True, error_message = None\<rparr>) acts))\<rparr>"

text \<open>A document that already has a title vector, and an environment whose files hold it.\<close>

definition stale_doc :: doc where
  "stale_doc = [''title'' \<mapsto> PyStr ''Cloud'', ''titleVector'' \<mapsto> PyFloats [9]]"

definition stale_env :: env where
  "stale_env = small_env\<lparr>json_load := (\<lambda>tr file. Inr [stale_doc])\<rparr>"

text \<open>
  The values on which \<open>get_embeddings\<close> raises nothing: \<open>None\<close>, a string and the
  empty list.
\<close>

fun embeddable :: "py_value \<Rightarrow> bool" where
  "embeddable PyNone = True"
| "embeddable (PyStr s) = True"
| "embeddable (PyFloats v) = (v = [])"

text \<open>
  A list cut into consecutive pieces of 100 elements, the last one shorter when the
  length is no multiple of 100: the partition the upload loop is compared with.
\<close>

function chunks :: "'a list \<Rightarrow> 'a list list" where
  "chunks xs = (if xs = [] then [] else take 100 xs # chunks (drop 100 xs))"
  by pat_completeness auto
termination
  by (relation "measure length") auto

declare chunks.simps [simp del]

section \<open>Properties of embedding generation\<close>

lemma length_zero_vector: "length zero_vector = 1536"
  by (simp add: zero_vector_def)

lemma generate_embeddings_eq: "generate_embeddings e text tr = get_embeddings e text None tr"
  by (simp add: generate_embeddings_def get_embeddings_def)

lemma strip_empty_iff: "strip s = [] \<longleftrightarrow> (\<forall>c \<in> set s. isspace c)"
proof
  assume "strip s = []"
  then have all: "\<forall>c \<in> set (dropWhile isspace s). isspace c"
    by (simp add: strip_def)
  have "dropWhile isspace s = []"
  proof (rule ccontr)
    assume ne: "dropWhile isspace s \<noteq> []"
    then have "\<not> isspace (hd (dropWhile isspace s))"
      by (rule hd_dropWhile)
    moreover have "hd (dropWhile isspace s) \<in> set (dropWhile isspace s)"
      using ne by simp
    ultimately show False
      using all by blast
  qed
  then show "\<forall>c \<in> set s. isspace c"
    by simp
next
  assume "\<forall>c \<in> set s. isspace c"
  then have d: "dropWhile isspace s = []"
    by simp
  show "strip s = []"
    unfolding strip_def d by simp
qed

text \<open>
  C10: on the input \<open>None\<close> both embedding functions return the zero vector of length
  1536, call no provider (the log is unchanged) and raise nothing, exactly as they do on
  the empty string.
\<close>

theorem embed_none_total:
  "get_embeddings e PyNone model tr = (Inr zero_vector, tr)
   \<and> generate_embeddings e PyNone tr = (Inr zero_vector, tr)
   \<and> get_embeddings e PyNone model tr = get_embeddings e (PyStr []) model tr
   \<and> generate_embeddings e PyNone tr = generate_embeddings e (PyStr []) tr
   \<and> length zero_vector = 1536"
  by (simp add: get_embeddings_def generate_embeddings_def zero_vector_def)

lemma provider_calls_append: "provider_calls (xs @ ys) = provider_calls xs @ provider_calls ys"
  by (induction xs rule: provider_calls.induct) simp_all

lemma get_embeddings_blank:
  "s = [] \<or> list_all isspace s \<Longrightarrow> get_embeddings e (PyStr s) model tr = (Inr zero_vector, tr)"
  by (auto simp: get_embeddings_def strip_empty_iff list_all_iff)

text \<open>What \<open>get_embeddings\<close> does on a text that is not blank, by the provider's answer.\<close>

lemma get_embeddings_call:
  assumes "\<not> list_all isspace s"
  shows "get_embeddings e (PyStr s) model tr =
     (let m = (case model of None \<Rightarrow> embedding_deployment e | Some m \<Rightarrow> m);
          tr1 = tr @ [EmbeddingsCreate (truncate_text s) m]
      in case embeddings_create e tr (truncate_text s) m of
           Inl ex \<Rightarrow>
             (Inr zero_vector, tr1 @ [Print (''Error generating embeddings: '' @ str_exc ex)])
         | Inr [] \<Rightarrow>
             (Inr zero_vector,
              tr1 @ [Print (''Error generating embeddings: '' @ str_exc IndexError)])
         | Inr (d # ds) \<Rightarrow> (Inr d, tr1))"
proof -
  from assms have "s \<noteq> []" "strip s \<noteq> []"
    by (auto simp: strip_empty_iff list_all_iff)
  then show ?thesis
    by (simp add: get_embeddings_def embeddings_try_def Let_def split: sum.splits list.splits)
qed

text \<open>
  C2, as the code has it: on a text that is empty or only whitespace both embedding
  functions return the zero vector, which has 1536 elements, and leave the log unchanged
  (no provider call). On any other text they call the provider once, with the truncated
  text and the model, and return the zero vector when that call raises or answers with
  an empty data list, and the first embedding of the answer, unchanged, otherwise. So
  the vector returned has 1536 elements whenever the first embedding of the answer to
  that call has; the code itself does not check the length.
\<close>

theorem embed_length_amended:
  "(s = [] \<or> list_all isspace s \<longrightarrow>
       get_embeddings e (PyStr s) model tr = (Inr zero_vector, tr)
     \<and> generate_embeddings e (PyStr s) tr = (Inr zero_vector, tr))
   \<and> length zero_vector = 1536
   \<and> (\<not> list_all isspace s \<longrightarrow>
         get_embeddings e (PyStr s) model tr
           = (case embeddings_create e tr (truncate_text s)
                     (case model of None \<Rightarrow> embedding_deployment e | Some m \<Rightarrow> m) of
                Inl ex \<Rightarrow>
                  (Inr zero_vector,
                   tr @ [EmbeddingsCreate (truncate_text s)
                           (case model of None \<Rightarrow> embedding_deployment e | Some m \<Rightarrow> m),
                         Print (''Error generating embeddings: '' @ str_exc ex)])
              | Inr [] \<Rightarrow>
                  (Inr zero_vector,
                   tr @ [EmbeddingsCreate (truncate_text s)
                           (case model of None \<Rightarrow> embedding_deployment e | Some m \<Rightarrow> m),
                         Print ''Error generating embeddings: list index out of range''])
              | Inr (d # ds) \<Rightarrow>
                  (Inr d,
                   tr @ [EmbeddingsCreate (truncate_text s)
                           (case model of None \<Rightarrow> embedding_deployment e | Some m \<Rightarrow> m)]))
       \<and> generate_embeddings e (PyStr s) tr
           = (case embeddings_create e tr (truncate_text s) (embedding_deployment e) of
                Inl ex \<Rightarrow>
                  (Inr zero_vector,
                   tr @ [EmbeddingsCreate (truncate_text s) (embedding_deployment e),
                         Print (''Error generating embeddings: '' @ str_exc ex)])
              | Inr [] \<Rightarrow>
                  (Inr zero_vector,
                   tr @ [EmbeddingsCreate (truncate_text s) (embedding_deployment e),
                         Print ''Error generating embeddings: list index out of range''])
              | Inr (d # ds) \<Rightarrow>
                  (Inr d, tr @ [EmbeddingsCreate (truncate_text s) (embedding_deployment e)])))
   \<and> ((\<forall>d ds. embeddings_create e tr (truncate_text s)
                  (case model of None \<Rightarrow> embedding_deployment e | Some m \<Rightarrow> m) = Inr (d # ds)
               \<longrightarrow> length d = 1536)
        \<longrightarrow> (\<exists>v tr'. get_embeddings e (PyStr s) model tr = (Inr v, tr') \<and> length v = 1536))
   \<and> ((\<forall>d ds. embeddings_create e tr (truncate_text s) (embedding_deployment e) = Inr (d # ds)
               \<longrightarrow> length d = 1536)
        \<longrightarrow> (\<exists>v tr'. generate_embeddings e (PyStr s) tr = (Inr v, tr') \<and> length v = 1536))"
proof -
  have blank: "s = [] \<or> list_all isspace s
      \<Longrightarrow> get_embeddings e (PyStr s) mo tr = (Inr zero_vector, tr)" for mo
    by (rule get_embeddings_blank)
  have call: "get_embeddings e (PyStr s) mo tr
           = (case embeddings_create e tr (truncate_text s)
                     (case mo of None \<Rightarrow> embedding_deployment e | Some m \<Rightarrow> m) of
                Inl ex \<Rightarrow>
                  (Inr zero_vector,
                   tr @ [EmbeddingsCreate (truncate_text s)
                           (case mo of None \<Rightarrow> embedding_deployment e | Some m \<Rightarrow> m),
                         Print (''Error generating embeddings: '' @ str_exc ex)])
              | Inr [] \<Rightarrow>
                  (Inr zero_vector,
                   tr @ [EmbeddingsCreate (truncate_text s)
                           (case mo of None \<Rightarrow> embedding_deployment e | Some m \<Rightarrow> m),
                         Print ''Error generating embeddings: list index out of range''])
              | Inr (d # ds) \<Rightarrow>
                  (Inr d,
                   tr @ [EmbeddingsCreate (truncate_text s)
                           (case mo of None \<Rightarrow> embedding_deployment e | Some m \<Rightarrow> m)]))"
    if "\<not> list_all isspace s" for mo
    unfolding get_embeddings_call [OF that]
    by (simp add: Let_def split: sum.splits list.splits)
  have len: "\<exists>v tr'. get_embeddings e (PyStr s) mo tr = (Inr v, tr') \<and> length v = 1536"
    if c: "\<forall>d ds. embeddings_create e tr (truncate_text s)
                  (case mo of None \<Rightarrow> embedding_deployment e | Some m \<Rightarrow> m) = Inr (d # ds)
               \<longrightarrow> length d = 1536" for mo
  proof (cases "list_all isspace s")
    case True
    then show ?thesis
      using blank [of mo] by (simp add: length_zero_vector)
  next
    case False
    show ?thesis
      unfolding get_embeddings_call [OF False] using c
      by (auto simp: Let_def length_zero_vector split: sum.splits list.splits)
  qed
  have blankg: "generate_embeddings e (PyStr s) tr = (Inr zero_vector, tr)"
    if "s = [] \<or> list_all isspace s"
    using blank [of None, OF that] unfolding generate_embeddings_eq .
  have callg: "generate_embeddings e (PyStr s) tr
           = (case embeddings_create e tr (truncate_text s) (embedding_deployment e) of
                Inl ex \<Rightarrow>
                  (Inr zero_vector,
                   tr @ [EmbeddingsCreate (truncate_text s) (embedding_deployment e),
                         Print (''Error generating embeddings: '' @ str_exc ex)])
              | Inr [] \<Rightarrow>
                  (Inr zero_vector,
                   tr @ [EmbeddingsCreate (truncate_text s) (embedding_deployment e),
                         Print ''Error generating embeddings: list index out of range''])
              | Inr (d # ds) \<Rightarrow>
                  (Inr d, tr @ [EmbeddingsCreate (truncate_text s) (embedding_deployment e)]))"
    if "\<not> list_all isspace s"
    using call [of None, OF that] unfolding generate_embeddings_eq option.case .
  have leng: "\<exists>v tr'. generate_embeddings e (PyStr s) tr = (Inr v, tr') \<and> length v = 1536"
    if "\<forall>d ds. embeddings_create e tr (truncate_text s) (embedding_deployment e) = Inr (d # ds)
               \<longrightarrow> length d = 1536"
    using len [of None] that unfolding generate_embeddings_eq option.case by blast
  show ?thesis
  proof (intro conjI impI)
    assume b: "s = [] \<or> list_all isspace s"
    show "get_embeddings e (PyStr s) model tr = (Inr zero_vector, tr)"
      by (rule blank [OF b])
    show "generate_embeddings e (PyStr s) tr = (Inr zero_vector, tr)"
      by (rule blankg [OF b])
  qed (fact length_zero_vector, erule call, erule callg, erule len, erule leng)
qed

theorem embed_length_amended_witness:
  "get_embeddings small_env (PyStr ''   '') None [] = (Inr zero_vector, [])
   \<and> generate_embeddings small_env (PyStr ''   '') [] = (Inr zero_vector, [])
   \<and> get_embeddings wide_env (PyStr ''cloud'') None []
     = (Inr (replicate 1536 1), [EmbeddingsCreate ''cloud'' ''embedding-small''])
   \<and> generate_embeddings timeout_env (PyStr ''cloud'') []
     = (Inr zero_vector,
        [EmbeddingsCreate ''cloud'' ''embedding-small'',
         Print ''Error generating embeddings: Request timed out.''])
   \<and> length (replicate 1536 (1 :: real)) = 1536"
  using embed_length_amended [of "''   ''" small_env None "[]"]
    embed_length_amended [of "''cloud''" wide_env None "[]"]
    embed_length_amended [of "''cloud''" timeout_env None "[]"]
  by (simp add: isspace_def truncate_text_def wide_env_def timeout_env_def small_env_def)

text \<open>
  C2 as stated fails: with a deployment whose embeddings have three elements, the
  vector returned for the text \<open>cloud\<close> has three elements, not 1536.
\<close>

theorem embed_length_counterexample:
  "get_embeddings small_env (PyStr ''cloud'') None []
     = (Inr [1, 2, 3], [EmbeddingsCreate ''cloud'' ''embedding-small''])
   \<and> generate_embeddings small_env (PyStr ''cloud'') []
     = (Inr [1, 2, 3], [EmbeddingsCreate ''cloud'' ''embedding-small''])
   \<and> length [1, 2, 3 :: real] \<noteq> 1536"
  by (simp add: get_embeddings_def generate_embeddings_def embeddings_try_def strip_def
      isspace_def truncate_text_def small_env_def)

text \<open>
  C5: for a text that is neither empty nor only whitespace, each embedding function
  calls the provider exactly once, with the first 8000 characters of the text when it is
  longer than 8000 characters and with the text unchanged otherwise.
\<close>

theorem embed_truncates:
  assumes "s \<noteq> []" and "\<not> list_all isspace s"
  shows "provider_calls (snd (get_embeddings e (PyStr s) model tr))
           = provider_calls tr
             @ [(if length s > 8000 then take 8000 s else s,
                 case model of None \<Rightarrow> embedding_deployment e | Some m \<Rightarrow> m)]
       \<and> provider_calls (snd (generate_embeddings e (PyStr s) tr))
           = provider_calls tr
             @ [(if length s > 8000 then take 8000 s else s, embedding_deployment e)]"
proof -
  have "provider_calls (snd (get_embeddings e (PyStr s) mo tr))
           = provider_calls tr
             @ [(if length s > 8000 then take 8000 s else s,
                 case mo of None \<Rightarrow> embedding_deployment e | Some m \<Rightarrow> m)]" for mo
    unfolding get_embeddings_call [OF assms(2)]
    by (simp add: Let_def provider_calls_append truncate_text_def split: sum.splits list.splits)
  from this [of model] this [of None] show ?thesis
    by (simp add: generate_embeddings_eq)
qed

theorem embed_truncates_witness:
  "provider_calls (snd (get_embeddings small_env (PyStr (replicate 8001 (CHR ''a''))) None []))
     = [(replicate 8000 (CHR ''a''), ''embedding-small'')]
   \<and> provider_calls (snd (generate_embeddings small_env (PyStr ''cloud'') []))
     = [(''cloud'', ''embedding-small'')]"
proof -
  have a: "replicate 8001 (CHR ''a'') \<noteq> []" "\<not> list_all isspace (replicate 8001 (CHR ''a''))"
    by (simp_all add: isspace_def list_all_iff)
  have c: "''cloud'' \<noteq> []" "\<not> list_all isspace ''cloud''"
    by (simp_all add: isspace_def)
  show ?thesis
    using embed_truncates [OF a, of small_env None "[]"]
      embed_truncates [OF c, of small_env None "[]"]
    by (simp add: small_env_def)
qed

text \<open>
  C6: on every text both embedding functions return a vector and raise nothing. When
  the provider call raises an exception, or answers with an empty data list (so that
  \<open>data[0]\<close> raises IndexError), they return the zero vector of length 1536 and print
  a line that ends with the text of the exception.
\<close>

theorem embed_absorbs_failure:
  "(\<exists>v tr'. get_embeddings e (PyStr s) model tr = (Inr v, tr'))
   \<and> (\<exists>v tr'. generate_embeddings e (PyStr s) tr = (Inr v, tr'))
   \<and> (\<not> list_all isspace s \<longrightarrow>
        (embeddings_create e tr (truncate_text s) (embedding_deployment e) = Inl ex \<longrightarrow>
           get_embeddings e (PyStr s) None tr
             = (Inr zero_vector,
                tr @ [EmbeddingsCreate (truncate_text s) (embedding_deployment e),
                      Print (''Error generating embeddings: '' @ str_exc ex)])
         \<and> generate_embeddings e (PyStr s) tr
             = (Inr zero_vector,
                tr @ [EmbeddingsCreate (truncate_text s) (embedding_deployment e),
                      Print (''Error generating embeddings: '' @ str_exc ex)]))
      \<and> (embeddings_create e tr (truncate_text s) (embedding_deployment e) = Inr [] \<longrightarrow>
           get_embeddings e (PyStr s) None tr
             = (Inr zero_vector,
                tr @ [EmbeddingsCreate (truncate_text s) (embedding_deployment e),
                      Print ''Error generating embeddings: list index out of range''])
         \<and> generate_embeddings e (PyStr s) tr
             = (Inr zero_vector,
                tr @ [EmbeddingsCreate (truncate_text s) (embedding_deployment e),
                      Print ''Error generating embeddings: list index out of range''])))
   \<and> length zero_vector = 1536"
proof -
  have total: "\<exists>v tr'. get_embeddings e (PyStr s) mo tr = (Inr v, tr')" for mo
  proof (cases "list_all isspace s")
    case True
    then show ?thesis by (simp add: get_embeddings_blank)
  next
    case False
    show ?thesis
      unfolding get_embeddings_call [OF False]
      by (simp add: Let_def split: sum.splits list.splits)
  qed
  have fails: "get_embeddings e (PyStr s) None tr
             = (Inr zero_vector,
                tr @ [EmbeddingsCreate (truncate_text s) (embedding_deployment e),
                      Print (''Error generating embeddings: '' @ str_exc ex)])"
    if "\<not> list_all isspace s"
      and "embeddings_create e tr (truncate_text s) (embedding_deployment e) = Inl ex"
    unfolding get_embeddings_call [OF that(1)] using that(2) by simp
  have empty: "get_embeddings e (PyStr s) None tr
             = (Inr zero_vector,
                tr @ [EmbeddingsCreate (truncate_text s) (embedding_deployment e),
                      Print ''Error generating embeddings: list index out of range''])"
    if "\<not> list_all isspace s"
      and "embeddings_create e tr (truncate_text s) (embedding_deployment e) = Inr []"
    unfolding get_embeddings_call [OF that(1)] using that(2) by simp
  show ?thesis
    using total fails empty by (simp add: generate_embeddings_eq length_zero_vector)
qed

theorem embed_absorbs_failure_witness:
  "get_embeddings timeout_env (PyStr ''cloud'') None []
     = (Inr zero_vector,
        [EmbeddingsCreate ''cloud'' ''embedding-small'',
         Print ''Error generating embeddings: Request timed out.''])
   \<and> generate_embeddings timeout_env (PyStr ''cloud'') []
     = (Inr zero_vector,
        [EmbeddingsCreate ''cloud'' ''embedding-small'',
         Print ''Error generating embeddings: Request timed out.''])"
  using embed_absorbs_failure
    [of timeout_env "''cloud''" None "[]" "ExternalError ''Request timed out.''"]
  by (simp add: timeout_env_def small_env_def truncate_text_def isspace_def)

section \<open>Properties of query reformulation\<close>

text \<open>\<open>contains\<close> is the substring test.\<close>

lemma contains_iff: "contains sub s \<longleftrightarrow> (\<exists>p r. s = p @ sub @ r)"
proof (induction s)
  case Nil
  then show ?case by auto
next
  case (Cons c cs)
  have "take (length sub) (c # cs) = sub \<longleftrightarrow> (\<exists>r. c # cs = sub @ r)"
    by (metis append_eq_conv_conj)
  moreover have "(\<exists>p r. c # cs = p @ sub @ r)
      \<longleftrightarrow> (\<exists>r. c # cs = sub @ r) \<or> (\<exists>p r. cs = p @ sub @ r)"
  proof
    assume "\<exists>p r. c # cs = p @ sub @ r"
    then obtain p r where pr: "c # cs = p @ sub @ r" by blast
    show "(\<exists>r. c # cs = sub @ r) \<or> (\<exists>p r. cs = p @ sub @ r)"
    proof (cases p)
      case Nil
      with pr show ?thesis by auto
    next
      case (Cons a p')
      with pr show ?thesis by auto
    qed
  next
    assume "(\<exists>r. c # cs = sub @ r) \<or> (\<exists>p r. cs = p @ sub @ r)"
    then show "\<exists>p r. c # cs = p @ sub @ r"
    proof
      assume "\<exists>r. c # cs = sub @ r"
      then show ?thesis by (metis append_Nil)
    next
      assume "\<exists>p r. cs = p @ sub @ r"
      then show ?thesis by (metis append_Cons)
    qed
  qed
  ultimately show ?case using Cons.IH by simp
qed

text \<open>The backward scan finds the content of the last message whose role is \<open>user\<close>.\<close>

lemma find_last_user_rev:
  "find_last_user (rev history) =
     (case filter (\<lambda>m. m ''role'' = Some ''user'') history of
        [] \<Rightarrow> None
      | m # ms \<Rightarrow> (last (m # ms)) ''content'')"
proof (induction history rule: rev_induct)
  case Nil
  then show ?case by simp
next
  case (snoc x xs)
  then show ?case
    by (cases "filter (\<lambda>m. m ''role'' = Some ''user'') xs") (simp_all)
qed

text \<open>
  C7: the query is returned unchanged when the history is empty, and, whatever the
  history, when the query has at least five whitespace-delimited tokens and its
  lower-case form contains neither \<open>more\<close> nor \<open>elaborat\<close>.
\<close>

theorem reformulate_unchanged:
  "extract_search_query q [] = q
   \<and> (5 \<le> length (split q) \<and> \<not> contains ''more'' (lower q)
        \<and> \<not> contains ''elaborat'' (lower q)
      \<longrightarrow> extract_search_query q history = q)"
  by (simp add: extract_search_query_def needs_context_def)

theorem reformulate_unchanged_witness:
  "extract_search_query ''what is the capital of France and why''
     [[''role'' \<mapsto> ''user'', ''content'' \<mapsto> ''tell me about X''],
      [''role'' \<mapsto> ''assistant'', ''content'' \<mapsto> ''...'']]
   = ''what is the capital of France and why''"
  using reformulate_unchanged [of "''what is the capital of France and why''"
     "[[''role'' \<mapsto> ''user'', ''content'' \<mapsto> ''tell me about X''],
      [''role'' \<mapsto> ''assistant'', ''content'' \<mapsto> ''...'']]"]
  by (simp add: split_def isspace_def lower_def lower_char_def)

text \<open>
  C3, as the code has it: for a non-empty history with a message of role \<open>user\<close> and
  a query that has fewer than five tokens or contains \<open>more\<close> or \<open>elaborat\<close>
  in lower case, the result is the content of the most recent user message, a space
  and the query when that content is a non-empty string; when that content is empty or
  missing, the query is returned unchanged (the guard \<open>if last_user_message\<close>).
\<close>

theorem reformulate_with_context:
  assumes "history \<noteq> []"
    and "length (split q) < 5 \<or> contains ''more'' (lower q) \<or> contains ''elaborat'' (lower q)"
    and "filter (\<lambda>m. m ''role'' = Some ''user'') history \<noteq> []"
  shows "(last (filter (\<lambda>m. m ''role'' = Some ''user'') history) ''content'' = Some c \<and> c \<noteq> []
            \<longrightarrow> extract_search_query q history = c @ '' '' @ q)
       \<and> (last (filter (\<lambda>m. m ''role'' = Some ''user'') history) ''content'' = Some []
          \<or> last (filter (\<lambda>m. m ''role'' = Some ''user'') history) ''content'' = None
            \<longrightarrow> extract_search_query q history = q)"
proof -
  from assms(3) obtain m ms where f: "filter (\<lambda>m. m ''role'' = Some ''user'') history = m # ms"
    by (cases "filter (\<lambda>m. m ''role'' = Some ''user'') history") auto
  have "find_last_user (rev history) = last (m # ms) ''content''"
    by (simp add: find_last_user_rev f)
  with assms(1,2) show ?thesis
    unfolding f by (auto simp: extract_search_query_def needs_context_def)
qed

theorem reformulate_with_context_witness:
  "extract_search_query ''tell me more''
     [[''role'' \<mapsto> ''user'', ''content'' \<mapsto> ''tell me about X''],
      [''role'' \<mapsto> ''assistant'', ''content'' \<mapsto> ''...'']]
   = ''tell me about X tell me more''"
proof -
  let ?h = "[[''role'' \<mapsto> ''user'', ''content'' \<mapsto> ''tell me about X''],
      [''role'' \<mapsto> ''assistant'', ''content'' \<mapsto> ''...'']] :: message list"
  have 1: "?h \<noteq> []" by simp
  have 2: "length (split ''tell me more'') < 5 \<or> contains ''more'' (lower ''tell me more'')
      \<or> contains ''elaborat'' (lower ''tell me more'')"
    by (simp add: split_def isspace_def)
  have 3: "filter (\<lambda>m. m ''role'' = Some ''user'') ?h \<noteq> []" by simp
  show ?thesis
    using reformulate_with_context [OF 1 2 3, of "''tell me about X''"] by simp
qed

text \<open>
  C3 as stated fails: the query \<open>more\<close> after a single user message with empty
  content is returned unchanged, not with a space in front.
\<close>

theorem reformulate_empty_content_counterexample:
  "length (split ''more'') < 5
   \<and> [''role'' \<mapsto> ''user'', ''content'' \<mapsto> []] ''role'' = Some ''user''
   \<and> [''role'' \<mapsto> ''user'', ''content'' \<mapsto> []] ''content'' = Some []
   \<and> extract_search_query ''more'' [[''role'' \<mapsto> ''user'', ''content'' \<mapsto> []]] = ''more''
   \<and> ''more'' \<noteq> [] @ '' '' @ ''more''"
  by (simp add: extract_search_query_def needs_context_def split_def isspace_def)


section \<open>Properties of the search client and the search endpoint\<close>

lemma searches_append: "searches (xs @ ys) = searches xs @ searches ys"
  by (induction xs rule: searches.induct) simp_all

text \<open>On a string the query embedding never raises and sends no search.\<close>

lemma generate_embeddings_str:
  "\<exists>v tr'. generate_embeddings e (PyStr s) tr = (Inr v, tr') \<and> searches tr' = searches tr"
proof (cases "list_all isspace s")
  case True
  then show ?thesis by (simp add: generate_embeddings_eq get_embeddings_blank)
next
  case False
  show ?thesis
    unfolding generate_embeddings_eq get_embeddings_call [OF False]
    by (simp add: Let_def searches_append split: sum.splits list.splits)
qed

text \<open>
  C1, as the code has it: \<open>semantic_search\<close> embeds the query, builds the vector
  query and, unless the constructor of the vector query raises, sends exactly one
  search, whose semantic configuration name is the one the caller gave, or
  \<open>semantic-config\<close> when the call omits it; the function validates nothing and
  returns what the index answers. When the constructor raises, its exception leaves the
  function and no search is sent.
\<close>

theorem semantic_search_request:
  "\<exists>v tr1. generate_embeddings e (PyStr q) tr = (Inr v, tr1)
     \<and> searches tr1 = searches tr
     \<and> (case new_vectorized_query e v
               [case vector_field_arg of None \<Rightarrow> ''contentVector'' | Some f \<Rightarrow> f]
               ((case top_arg of None \<Rightarrow> 5 | Some t \<Rightarrow> t) * 3) of
           Inl ex \<Rightarrow>
             semantic_search e q top_arg vector_field_arg semantic_config_arg tr = (Inl ex, tr1)
         | Inr vector_query \<Rightarrow>
             semantic_search e q top_arg vector_field_arg semantic_config_arg tr
               = (search_index e tr1
                    \<lparr>search_text = Some q,
                     vector_queries = [vector_query],
                     select = selected_fields,
                     top_n = (case top_arg of None \<Rightarrow> 5 | Some t \<Rightarrow> t),
                     query_type = Some SEMANTIC,
                     semantic_configuration_name =
                       Some (case semantic_config_arg of
                               None \<Rightarrow> ''semantic-config'' | Some c \<Rightarrow> c)\<rparr>,
                  tr1 @ [Search
                    \<lparr>search_text = Some q,
                     vector_queries = [vector_query],
                     select = selected_fields,
                     top_n = (case top_arg of None \<Rightarrow> 5 | Some t \<Rightarrow> t),
                     query_type = Some SEMANTIC,
                     semantic_configuration_name =
                       Some (case semantic_config_arg of
                               None \<Rightarrow> ''semantic-config'' | Some c \<Rightarrow> c)\<rparr>]))"
proof -
  obtain v tr1 where g: "generate_embeddings e (PyStr q) tr = (Inr v, tr1)"
    and s: "searches tr1 = searches tr"
    using generate_embeddings_str by blast
  show ?thesis
    by (simp add: g s semantic_search_def run_search_def Let_def split: sum.splits)
qed

theorem semantic_search_request_witness:
  "semantic_search small_env ''cloud'' (Some 5) None (Some ''my-config'') []
     = (Inr [],
        [EmbeddingsCreate ''cloud'' ''embedding-small'',
         Search \<lparr>search_text = Some ''cloud'',
                 vector_queries =
                   [\<lparr>vq_vector = [1, 2, 3], vq_fields = [''contentVector''],
                     k_nearest_neighbors = None\<rparr>],
                 select = selected_fields,
                 top_n = 5,
                 query_type = Some SEMANTIC,
                 semantic_configuration_name = Some ''my-config''\<rparr>])
   \<and> semantic_search strict_sdk_env ''cloud'' (Some 5) None (Some ''my-config'') []
     = (Inl (ExternalError ''__init__() got an unexpected keyword argument k''),
        [EmbeddingsCreate ''cloud'' ''embedding-small''])"
  using semantic_search_request [where e = small_env and q = "''cloud''" and tr = "[]"
      and top_arg = "Some 5" and vector_field_arg = None
      and semantic_config_arg = "Some ''my-config''"]
    semantic_search_request [where e = strict_sdk_env and q = "''cloud''" and tr = "[]"
      and top_arg = "Some 5" and vector_field_arg = None
      and semantic_config_arg = "Some ''my-config''"]
  by (auto simp: generate_embeddings_def embeddings_try_def strip_def isspace_def
      truncate_text_def small_env_def strict_sdk_env_def Let_def)

text \<open>
  C1 as stated fails: a semantic search that omits the configuration is no validation
  error. With an SDK that builds the vector query, the search is sent with the default
  name and its results are returned; the endpoint, which never passes a configuration,
  answers with status 200.
\<close>

theorem semantic_search_default_counterexample:
  "semantic_search small_env ''cloud'' (Some 5) None None []
     = (Inr [],
        [EmbeddingsCreate ''cloud'' ''embedding-small'',
         Search \<lparr>search_text = Some ''cloud'',
                 vector_queries =
                   [\<lparr>vq_vector = [1, 2, 3], vq_fields = [''contentVector''],
                     k_nearest_neighbors = None\<rparr>],
                 select = selected_fields,
                 top_n = 5,
                 query_type = Some SEMANTIC,
                 semantic_configuration_name = Some ''semantic-config''\<rparr>])
   \<and> fst (search small_env
        \<lparr>data_query = Some ''cloud'', data_search_type = Some ''semantic'',
         data_top = Some (Inr 5)\<rparr> [])
     = (ResultsBody [] 0 ''cloud'' ''semantic'', 200)"
  by (simp add: search_def search_try_def semantic_search_def run_search_def
      generate_embeddings_def embeddings_try_def strip_def isspace_def truncate_text_def
      small_env_def Let_def)

text \<open>
  C8: a request whose search type is none of \<open>vector\<close>, \<open>hybrid\<close> and
  \<open>semantic\<close> is answered with an error and leaves the log unchanged: no embedding is
  requested and no search is sent. The answer is status 400 with
  \<open>Invalid search type\<close>, unless an earlier check of the same request already
  rejected it: an empty query (status 400) or a \<open>top\<close> that \<open>int\<close> refuses
  (status 500 with the text of the exception).
\<close>

theorem search_invalid_type_rejected:
  assumes "data_search_type data = Some t"
    and "t \<noteq> ''vector''" and "t \<noteq> ''hybrid''" and "t \<noteq> ''semantic''"
  shows "search e data tr =
           ((case (case data_top data of None \<Rightarrow> Inr 5 | Some r \<Rightarrow> r) of
               Inl ex \<Rightarrow> (ErrorBody (str_exc ex), 500)
             | Inr n \<Rightarrow>
                 if data_query data = None \<or> data_query data = Some []
                 then (ErrorBody ''Query is required'', 400)
                 else (ErrorBody ''Invalid search type'', 400)),
            tr)
       \<and> (\<exists>msg code. search e data tr = ((ErrorBody msg, code), tr) \<and> (code = 400 \<or> code = 500))"
  using assms
  by (auto simp: search_def search_try_def split: option.splits sum.splits)

theorem search_invalid_type_rejected_witness:
  "search small_env
     \<lparr>data_query = Some ''cloud'', data_search_type = Some ''fuzzy'', data_top = None\<rparr> []
   = ((ErrorBody ''Invalid search type'', 400), [])"
  using search_invalid_type_rejected [of
      "\<lparr>data_query = Some ''cloud'', data_search_type = Some ''fuzzy'', data_top = None\<rparr>"
      "''fuzzy''" small_env "[]"]
  by simp


section \<open>Properties of the upload in batches\<close>

lemma chunks_Nil: "chunks [] = []"
  by (simp add: chunks.simps)

lemma chunks_nonempty: "xs \<noteq> [] \<Longrightarrow> chunks xs = take 100 xs # chunks (drop 100 xs)"
  by (subst chunks.simps) simp

lemma concat_chunks: "concat (chunks xs) = xs"
proof (induction xs rule: chunks.induct)
  case (1 xs)
  then show ?case
    by (cases "xs = []") (simp_all add: chunks_Nil chunks_nonempty)
qed

lemma lengths_chunks:
  "map length (chunks xs)
     = replicate (length xs div 100) 100
       @ (if length xs mod 100 = 0 then [] else [length xs mod 100])"
proof (induction xs rule: chunks.induct)
  case (1 xs)
  show ?case
  proof (cases "xs = []")
    case True
    then show ?thesis by (simp add: chunks_Nil)
  next
    case False
    show ?thesis
    proof (cases "length xs < 100")
      case True
      with False have "drop 100 xs = []" by simp
      with False True show ?thesis
        by (simp add: chunks_nonempty chunks_Nil)
    next
      case ge: False
      then have d: "length xs div 100 = Suc ((length xs - 100) div 100)"
        and m: "length xs mod 100 = (length xs - 100) mod 100"
        by (simp_all add: le_div_geq le_mod_geq)
      from ge have "min (length xs) 100 = 100" by simp
      with 1 [OF False] False show ?thesis
        by (simp add: chunks_nonempty d m)
    qed
  qed
qed

lemma batch_of_eq: "i < length documents \<Longrightarrow> batch_of documents i = take 100 (drop i documents)"
  by (simp add: batch_of_def Let_def min_def)

lemma batch_report_nonempty: "batch_report e documents i tr \<noteq> []"
  by (simp add: batch_report_def Let_def split: sum.splits)

lemma attempted_prints: "attempted (map Print r @ evs) = attempted evs"
  by (induction r) simp_all

lemma report_counts_prints: "report_counts (map Print r @ evs) = report_counts evs"
  by (induction r) simp_all

lemma takeWhile_prints:
  "evs = [] \<or> \<not> is_print (hd evs) \<Longrightarrow> takeWhile is_print (map Print r @ evs) = map Print r"
  by (induction r) (auto simp: takeWhile_eq_Nil_iff)

lemma document_upload_action: "document \<circ> upload_action = id"
  by (rule ext) (simp add: upload_action_def)

text \<open>
  The loop appends to the log: for each piece of the partition, in order, the submission
  of that piece followed by at least one printed line.
\<close>

lemma upload_loop_suffix:
  "\<exists>suf. upload_loop e documents i tr = tr @ suf
     \<and> attempted suf = chunks (drop i documents)
     \<and> length (report_counts suf) = length (attempted suf)
     \<and> 0 \<notin> set (report_counts suf)
     \<and> (suf = [] \<or> \<not> is_print (hd suf))"
proof (induction e documents i tr rule: upload_loop.induct)
  case (1 e documents i tr)
  show ?case
  proof (cases "i < length documents")
    case False
    then show ?thesis
      by (simp add: chunks_Nil upload_loop.simps [of e documents i tr])
  next
    case True
    define r where "r = batch_report e documents i tr"
    define b where "b = batch_of documents i"
    have ub: "upload_batch e documents i tr = tr @ IndexDocuments (map upload_action b) # map Print r"
      by (simp add: upload_batch_def r_def b_def)
    from 1 [OF True] obtain suf where
      s1: "upload_loop e documents (i + 100) (upload_batch e documents i tr)
             = upload_batch e documents i tr @ suf"
      and s2: "attempted suf = chunks (drop (i + 100) documents)"
      and s3: "length (report_counts suf) = length (attempted suf)"
      and s4: "0 \<notin> set (report_counts suf)"
      and s5: "suf = [] \<or> \<not> is_print (hd suf)"
      by blast
    let ?suf = "IndexDocuments (map upload_action b) # map Print r @ suf"
    have r: "r \<noteq> []"
      by (simp add: r_def batch_report_nonempty)
    have b: "b = take 100 (drop i documents)"
      by (simp add: b_def batch_of_eq True)
    have ne: "drop i documents \<noteq> []"
      using True by simp
    have "upload_loop e documents i tr = tr @ ?suf"
      using True s1 ub by (simp add: upload_loop.simps [of e documents i tr])
    moreover have "attempted ?suf = chunks (drop i documents)"
      using ne by (simp add: attempted_prints document_upload_action s2 b
          chunks_nonempty add.commute)
    moreover have "length (report_counts ?suf) = length (attempted ?suf)"
      by (simp add: attempted_prints report_counts_prints s3)
    moreover have "0 \<notin> set (report_counts ?suf)"
      using r s4 by (simp add: report_counts_prints takeWhile_prints [OF s5])
    moreover have "?suf = [] \<or> \<not> is_print (hd ?suf)"
      by simp
    ultimately show ?thesis
      by blast
  qed
qed

text \<open>The number of pieces is the length divided by 100, rounded up.\<close>

lemma ceil_div_100: "(n::nat) div 100 + (if n mod 100 = 0 then 0 else 1) = (n + 99) div 100"
proof -
  define q r where "q = n div 100" and "r = n mod 100"
  have n: "n = q * 100 + r" and r: "r < 100"
    by (simp_all add: q_def r_def)
  show ?thesis
  proof (cases "r = 0")
    case True
    then show ?thesis
      unfolding n by simp
  next
    case False
    then obtain r' where r': "r = Suc r'" using not0_implies_Suc by blast
    have "q * 100 + r + 99 = (q + 1) * 100 + r'"
      by (simp add: r')
    moreover have "r' < 100" using r r' by simp
    ultimately have "(q * 100 + r + 99) div 100 = q + 1"
      by simp
    moreover have "(q * 100 + r) div 100 = q" "(q * 100 + r) mod 100 = r"
      using r by simp_all
    ultimately show ?thesis
      unfolding n using False by simp
  qed
qed

lemma length_chunks: "length (chunks xs) = (length xs + 99) div 100"
proof -
  have "length (chunks xs) = length (map length (chunks xs))"
    by simp
  also have "\<dots> = length xs div 100 + (if length xs mod 100 = 0 then 0 else 1)"
    by (simp only: lengths_chunks) simp
  also have "\<dots> = (length xs + 99) div 100"
    by (rule ceil_div_100)
  finally show ?thesis .
qed

text \<open>\<open>upload_documents\<close> runs the loop on the documents of the file, from offset 0.\<close>

lemma upload_documents_loop:
  "json_load e tr file = Inr documents \<Longrightarrow>
   snd (upload_documents e file tr)
     = upload_loop e documents 0
         (tr @ [JsonLoad file,
                Print (''Uploading '' @ str_nat (length documents) @ '' documents to index ''
                       @ quoted (search_index_name e) @ ''...'')])
       @ [Print (''Document upload completed for index '' @ quoted (search_index_name e))]"
  by (simp add: upload_documents_def Let_def)

text \<open>
  C4: when the file loads, \<open>upload_documents\<close> returns without raising, whatever the
  index answers or raises. Its log is the log before, the file read, the line that
  announces the upload, the events of the loop and the closing line. The batches
  submitted in the loop are the documents of the file in input order (their
  concatenation is the input), \<open>ceil(n / 100)\<close> of them, of 100 documents each with a
  last batch of \<open>n mod 100\<close> documents when that is not zero; every batch submitted is
  followed by at least one printed line reporting it before the next batch or the
  closing line. For 250 documents and an index that raises on the second batch, the
  sizes are 100, 100 and 50 and each of the three is reported.
\<close>

theorem upload_batches:
  assumes "json_load e tr file = Inr documents"
  shows "fst (upload_documents e file tr) = Inr ()
       \<and> snd (upload_documents e file tr)
           = tr @ [JsonLoad file,
                   Print (''Uploading '' @ str_nat (length documents) @ '' documents to index ''
                          @ quoted (search_index_name e) @ ''...'')]
                @ upload_events e file tr
                @ [Print (''Document upload completed for index '' @ quoted (search_index_name e))]
       \<and> concat (attempted (upload_events e file tr)) = documents
       \<and> length (attempted (upload_events e file tr)) = (length documents + 99) div 100
       \<and> map length (attempted (upload_events e file tr))
           = replicate (length documents div 100) 100
             @ (if length documents mod 100 = 0 then [] else [length documents mod 100])
       \<and> length (report_counts (upload_events e file tr))
           = length (attempted (upload_events e file tr))
       \<and> 0 \<notin> set (report_counts (upload_events e file tr))"
proof -
  let ?tr2 = "tr @ [JsonLoad file,
                Print (''Uploading '' @ str_nat (length documents) @ '' documents to index ''
                       @ quoted (search_index_name e) @ ''...'')]"
  let ?closing = "Print (''Document upload completed for index '' @ quoted (search_index_name e))"
  obtain suf where l: "upload_loop e documents 0 ?tr2 = ?tr2 @ suf"
    and a: "attempted suf = chunks (drop 0 documents)"
    and r: "length (report_counts suf) = length (attempted suf)"
    and z: "0 \<notin> set (report_counts suf)"
    using upload_loop_suffix by blast
  have res: "fst (upload_documents e file tr) = Inr ()"
    using assms by (simp add: upload_documents_def Let_def)
  have "snd (upload_documents e file tr) = upload_loop e documents 0 ?tr2 @ [?closing]"
    using assms by (rule upload_documents_loop)
  then have run: "snd (upload_documents e file tr) = (?tr2 @ suf) @ [?closing]"
    by (simp only: l)
  have "butlast (snd (upload_documents e file tr)) = ?tr2 @ suf"
    unfolding run by (rule butlast_snoc)
  then have ev: "upload_events e file tr = suf"
    by (simp add: upload_events_def)
  show ?thesis
    unfolding ev using res run a r z
    by (simp add: concat_chunks lengths_chunks length_chunks)
qed

lemma filter_succeeded_replicate [simp]:
  "filter succeeded (replicate n \<lparr>key = [], succeeded = True, error_message = None\<rparr>)
     = replicate n \<lparr>key = [], succeeded = True, error_message = None\<rparr>"
  by (induction n) simp_all

lemma log_errors_replicate [simp]:
  "log_errors (replicate n \<lparr>key = [], succeeded = True, error_message = None\<rparr>) = []"
  by (induction n) simp_all

text \<open>The lines printed for 250 documents when the second submission raises.\<close>

lemma upload_250_lines:
  "filter is_print (snd (upload_documents second_batch_fails_env ''documents_with_embeddings.json'' []))
     = [Print (''Uploading 250 documents to index '' @ quoted ''documents'' @ ''...''),
        Print ''Batch 1: 100/100 documents indexed successfully'',
        Print ''Error uploading batch 2: connection reset'',
        Print ''Batch 3: 50/50 documents indexed successfully'',
        Print (''Document upload completed for index '' @ quoted ''documents'')]"
  by (simp add: upload_documents_def upload_loop.simps upload_batch_def batch_report_def
      batch_of_def second_batch_fails_env_def small_env_def quoted_def Let_def)

theorem upload_batches_witness:
  "map length
     (attempted (upload_events second_batch_fails_env ''documents_with_embeddings.json'' []))
     = [100, 100, 50]
   \<and> length (report_counts
        (upload_events second_batch_fails_env ''documents_with_embeddings.json'' [])) = 3
   \<and> 0 \<notin> set (report_counts
        (upload_events second_batch_fails_env ''documents_with_embeddings.json'' []))
   \<and> filter is_print
        (snd (upload_documents second_batch_fails_env ''documents_with_embeddings.json'' []))
     = [Print (''Uploading 250 documents to index '' @ quoted ''documents'' @ ''...''),
        Print ''Batch 1: 100/100 documents indexed successfully'',
        Print ''Error uploading batch 2: connection reset'',
        Print ''Batch 3: 50/50 documents indexed successfully'',
        Print (''Document upload completed for index '' @ quoted ''documents'')]"
proof -
  let ?T = "upload_events second_batch_fails_env ''documents_with_embeddings.json'' []"
  have j: "json_load second_batch_fails_env [] ''documents_with_embeddings.json''
      = Inr (replicate 250 sample_doc)"
    by (simp add: second_batch_fails_env_def)
  note u = upload_batches [OF j]
  have r: "replicate 2 (100::nat) = [100, 100]"
    by (simp add: numeral_2_eq_2)
  have m: "map length (attempted ?T) = [100, 100, 50]"
    using u by (simp add: r)
  have "length (attempted ?T) = length (map length (attempted ?T))"
    by simp
  also have "\<dots> = 3"
    by (simp only: m) simp
  finally have l: "length (attempted ?T) = 3" .
  have c: "length (report_counts ?T) = 3" "0 \<notin> set (report_counts ?T)"
    using u l by simp_all
  show ?thesis
    using m c upload_250_lines by simp
qed


section \<open>Properties of the offline embedding of a document file\<close>

lemma get_embeddings_embeddable:
  assumes "embeddable v"
  shows "\<exists>vec tr'. get_embeddings e v model tr = (Inr vec, tr')"
proof (cases v)
  case PyNone
  then show ?thesis by (simp add: get_embeddings_def)
next
  case (PyStr s)
  show ?thesis
  proof (cases "list_all isspace s")
    case True
    then show ?thesis by (simp add: PyStr get_embeddings_blank)
  next
    case False
    show ?thesis
      unfolding PyStr get_embeddings_call [OF False]
      by (simp add: Let_def split: sum.splits list.splits)
  qed
next
  case (PyFloats x)
  with assms show ?thesis by (simp add: get_embeddings_def)
qed

lemma process_loop_ok:
  assumes "\<forall>d \<in> set ds. embeddable (get_or d ''title'' (PyStr []))
                        \<and> embeddable (get_or d ''content'' (PyStr []))"
  shows "\<exists>ds' tr'. process_loop e i ds tr = (Inr ds', tr')
           \<and> list_all2 (\<lambda>d d'. \<exists>tv cv. d' = d(''titleVector'' \<mapsto> PyFloats tv,
                                                ''contentVector'' \<mapsto> PyFloats cv)) ds ds'"
  using assms
proof (induction ds arbitrary: i tr)
  case Nil
  then show ?case by simp
next
  case (Cons d ds)
  let ?tr1 = "if i > 0 \<and> i mod 10 = 0
                 then tr @ [Print (''Processed '' @ str_nat i @ '' documents...''), Sleep (1 / 2)]
                 else tr"
  from Cons.prems have et: "embeddable (get_or d ''title'' (PyStr []))"
    and ec: "embeddable (get_or d ''content'' (PyStr []))"
    by simp_all
  obtain tv tr2 where g1: "get_embeddings e (get_or d ''title'' (PyStr [])) None ?tr1 = (Inr tv, tr2)"
    using get_embeddings_embeddable [OF et] by blast
  obtain cv tr3 where g2: "get_embeddings e (get_or d ''content'' (PyStr [])) None tr2 = (Inr cv, tr3)"
    using get_embeddings_embeddable [OF ec] by blast
  from Cons.prems have "\<forall>d \<in> set ds. embeddable (get_or d ''title'' (PyStr []))
                        \<and> embeddable (get_or d ''content'' (PyStr []))"
    by simp
  from Cons.IH [OF this, of "Suc i" tr3] obtain ds' tr4 where
    r: "process_loop e (Suc i) ds tr3 = (Inr ds', tr4)"
    and l: "list_all2 (\<lambda>d d'. \<exists>tv cv. d' = d(''titleVector'' \<mapsto> PyFloats tv,
                                                ''contentVector'' \<mapsto> PyFloats cv)) ds ds'"
    by blast
  have eq: "process_loop e i (d # ds) tr
      = (Inr (d(''titleVector'' \<mapsto> PyFloats tv, ''contentVector'' \<mapsto> PyFloats cv) # ds'), tr4)"
    using g1 g2 r by (simp add: Let_def)
  have "list_all2 (\<lambda>d d'. \<exists>tv cv. d' = d(''titleVector'' \<mapsto> PyFloats tv,
                                                ''contentVector'' \<mapsto> PyFloats cv))
          (d # ds)
          (d(''titleVector'' \<mapsto> PyFloats tv, ''contentVector'' \<mapsto> PyFloats cv) # ds')"
    by (rule list_all2_Cons [THEN iffD2]) (intro conjI exI, rule refl, rule l)
  with eq show ?case
    by blast
qed

text \<open>
  For a path that ends in \<open>.json\<close> and contains \<open>.json\<close> nowhere before, the
  replacement changes the ending only.
\<close>

lemma replace_json_suffix_aux:
  assumes "\<not> contains ''.json'' base"
  shows "replace ''.json'' new (base @ ''.json'') = base @ new"
  using assms
proof (induction base)
  case Nil
  then show ?case by simp
next
  case (Cons c cs)
  have l5: "length ''.json'' = 5"
    by simp
  from Cons.prems have nt: "take 5 (c # cs) \<noteq> ''.json''" and nc: "\<not> contains ''.json'' cs"
    unfolding contains.simps l5 by blast+
  have "take 5 ((c # cs) @ ''.json'') \<noteq> ''.json''"
  proof (cases "5 \<le> length (c # cs)")
    case True
    then have "take 5 ((c # cs) @ ''.json'') = take 5 (c # cs)"
      by simp
    with nt show ?thesis
      by metis
  next
    case False
    then consider "cs = []" | a where "cs = [a]" | a b where "cs = [a, b]"
      | a b d where "cs = [a, b, d]"
      by (cases cs; cases "tl cs"; cases "tl (tl cs)"; cases "tl (tl (tl cs))") auto
    then show ?thesis
      by cases auto
  qed
  then have t5: "take (length ''.json'') (c # (cs @ ''.json'')) \<noteq> ''.json''"
    unfolding l5 by (simp only: append_Cons simp_thms)
  have "replace ''.json'' new (c # (cs @ ''.json''))
      = (if ''.json'' \<noteq> [] \<and> take (length ''.json'') (c # (cs @ ''.json'')) = ''.json''
         then new @ replace ''.json'' new (drop (length ''.json'') (c # (cs @ ''.json'')))
         else c # replace ''.json'' new (cs @ ''.json''))"
    by (rule replace.simps(2))
  also have "\<dots> = c # replace ''.json'' new (cs @ ''.json'')"
    using t5 by (simp only: simp_thms if_False)
  also have "\<dots> = c # (cs @ new)"
    by (simp only: Cons.IH [OF nc])
  finally show ?case
    by (simp only: append_Cons)
qed

text \<open>
  C9, as the code has it: when the file loads, the title and the content of every
  document are strings, \<open>None\<close> or absent, and the output file can be written,
  \<open>process_documents\<close> returns the same documents in the same order, each with
  \<open>titleVector\<close> and \<open>contentVector\<close> set to vectors (added, or overwritten when
  the document had them) and every other field unchanged. For an input path that ends in
  \<open>.json\<close> and has no other \<open>.json\<close> in it, these documents are written to the
  sibling path with the ending \<open>_with_embeddings.json\<close> instead.
\<close>

theorem process_documents_adds_vectors:
  assumes "json_load e tr file = Inr documents"
    and "\<forall>d \<in> set documents. embeddable (get_or d ''title'' (PyStr []))
                              \<and> embeddable (get_or d ''content'' (PyStr []))"
    and "\<forall>tr' path ds. json_dump e tr' path ds = None"
  shows "\<exists>documents' tr'.
           process_documents e file tr = (Inr documents', tr')
         \<and> length documents' = length documents
         \<and> (\<forall>i < length documents. \<exists>tv cv.
               documents' ! i = (documents ! i)(''titleVector'' \<mapsto> PyFloats tv,
                                                ''contentVector'' \<mapsto> PyFloats cv))
         \<and> (\<forall>i < length documents. \<forall>k. k \<noteq> ''titleVector'' \<and> k \<noteq> ''contentVector''
               \<longrightarrow> (documents' ! i) k = (documents ! i) k)
         \<and> (\<forall>base. file = base @ ''.json'' \<and> \<not> contains ''.json'' base
               \<longrightarrow> JsonDump (base @ ''_with_embeddings.json'') documents' \<in> set tr')"
proof -
  let ?tr2 = "tr @ [JsonLoad file]
                 @ [Print (''Processing '' @ str_nat (length documents) @ '' documents...'')]"
  obtain ds' tr3 where
    r: "process_loop e 0 documents ?tr2 = (Inr ds', tr3)"
    and l: "list_all2 (\<lambda>d d'. \<exists>tv cv. d' = d(''titleVector'' \<mapsto> PyFloats tv,
                                                ''contentVector'' \<mapsto> PyFloats cv)) documents ds'"
    using process_loop_ok [OF assms(2)] by blast
  let ?out = "replace ''.json'' ''_with_embeddings.json'' file"
  let ?tr4 = "tr3 @ [Print (''Completed processing '' @ str_nat (length ds')
                                              @ '' documents with embeddings.'')]"
  have p: "process_documents e file tr
      = (Inr ds', ?tr4 @ [JsonDump ?out ds']
                  @ [Print (''Documents with embeddings saved to '' @ ?out)])"
    using assms(1,3) r by (simp add: process_documents_def Let_def)
  have len: "length ds' = length documents"
    using l by (simp add: list_all2_lengthD)
  have upd: "\<exists>tv cv. ds' ! i = (documents ! i)(''titleVector'' \<mapsto> PyFloats tv,
                                                ''contentVector'' \<mapsto> PyFloats cv)"
    if "i < length documents" for i
    using l that by (simp add: list_all2_conv_all_nth)
  have frame: "(ds' ! i) k = (documents ! i) k"
    if "i < length documents" "k \<noteq> ''titleVector'' \<and> k \<noteq> ''contentVector''" for i k
    using upd [OF that(1)] that(2) by auto
  have out: "?out = base @ ''_with_embeddings.json''"
    if "file = base @ ''.json'' \<and> \<not> contains ''.json'' base" for base
    using that by (simp add: replace_json_suffix_aux)
  show ?thesis
    unfolding p using len upd frame out by auto
qed


theorem process_documents_adds_vectors_witness:
  "process_documents sample_env ''documents.json'' []
     = (Inr [sample_doc(''titleVector'' \<mapsto> PyFloats [1, 2, 3],
                        ''contentVector'' \<mapsto> PyFloats zero_vector)],
        [JsonLoad ''documents.json'',
         Print ''Processing 1 documents...'',
         EmbeddingsCreate ''Cloud'' ''embedding-small'',
         Print ''Completed processing 1 documents with embeddings.'',
         JsonDump ''documents_with_embeddings.json''
           [sample_doc(''titleVector'' \<mapsto> PyFloats [1, 2, 3],
                       ''contentVector'' \<mapsto> PyFloats zero_vector)],
         Print ''Documents with embeddings saved to documents_with_embeddings.json''])"
proof -
  have 1: "json_load sample_env [] ''documents.json'' = Inr [sample_doc]"
    by (simp add: sample_env_def)
  have 2: "\<forall>d \<in> set [sample_doc]. embeddable (get_or d ''title'' (PyStr []))
                              \<and> embeddable (get_or d ''content'' (PyStr []))"
    by (simp add: sample_doc_def get_or_def)
  have 3: "\<forall>tr' path ds. json_dump sample_env tr' path ds = None"
    by (simp add: sample_env_def small_env_def)
  show ?thesis
    using process_documents_adds_vectors [OF 1 2 3]
    by (simp add: process_documents_def get_embeddings_def embeddings_try_def strip_def
        isspace_def truncate_text_def get_or_def sample_env_def small_env_def sample_doc_def
        Let_def)
qed

text \<open>
  C9 as stated fails: a document that already has a \<open>titleVector\<close> does not keep
  it; the field is overwritten in the documents returned and written.
\<close>

theorem process_documents_counterexample:
  "fst (process_documents stale_env ''documents.json'' [])
     = Inr [stale_doc(''titleVector'' \<mapsto> PyFloats [1, 2, 3],
                      ''contentVector'' \<mapsto> PyFloats zero_vector)]
   \<and> stale_doc ''titleVector'' = Some (PyFloats [9])
   \<and> (stale_doc(''titleVector'' \<mapsto> PyFloats [1, 2, 3],
                  ''contentVector'' \<mapsto> PyFloats zero_vector)) ''titleVector''
       = Some (PyFloats [1, 2, 3])
   \<and> snd (process_documents stale_env ''documents.json'' []) ! 4
       = JsonDump ''documents_with_embeddings.json''
           [stale_doc(''titleVector'' \<mapsto> PyFloats [1, 2, 3],
                      ''contentVector'' \<mapsto> PyFloats zero_vector)]"
  by (simp add: process_documents_def get_embeddings_def embeddings_try_def strip_def
      isspace_def truncate_text_def get_or_def stale_env_def small_env_def stale_doc_def
      Let_def)

end
